theory Spec2Isabelle
  imports Main "HOL-Library.Word"
begin

section \<open>Reading 64-bit integers from a memory-mapped file, surviving SIGBUS\<close>

text \<open>
  A shallow embedding of \<^verbatim>\<open>read_mmap.cc\<close> and of its two siblings: the naive reader
  without any fault handling, and the portable reader, of which the POSIX branch
  (the \<^verbatim>\<open>#else\<close> parts) is the one modelled. The POSIX branch of the portable reader and
  \<^verbatim>\<open>read_mmap.cc\<close> agree statement by statement in \<^verbatim>\<open>handle_sigbus\<close>,
  \<^verbatim>\<open>install_signal_handlers\<close>, \<^verbatim>\<open>safe_mmap_try\<close>, \<^verbatim>\<open>file::read\<close>, \<^verbatim>\<open>open_file\<close> and
  \<^verbatim>\<open>main\<close>; they differ only in which destructor calls \<^verbatim>\<open>munmap\<close>.

  \<^verbatim>\<open>assert\<close> is taken as compiled in (no \<^verbatim>\<open>NDEBUG\<close> appears in the sources): a failed
  assertion calls \<^verbatim>\<open>abort()\<close>.
\<close>

subsection \<open>Machine types, memory and the platform\<close>

type_synonym size_t = "64 word"
type_synonym addr = "64 word"
type_synonym byte = "8 word"
type_synonym int64_t = "64 word"

text \<open>
  A byte of the address space is either backed by storage, and then holds a value that a
  load can read, or it is not: the backing of its page is gone (the file was truncated, the
  device removed), or nothing is mapped at its address. Touching such a byte makes the
  kernel raise a signal; which one is decided by where the address lies (\<open>load_fault\<close>
  below). The memory is an input of every read: it is the state of the address space at the
  moment of that read.
\<close>

datatype cell = Backed byte | Unbacked

type_synonym memory = "addr \<Rightarrow> cell"

datatype endian = Little_endian | Big_endian

text \<open>
  What the sources take from the platform: the byte order of an \<^verbatim>\<open>int64_t\<close> load, the
  values of the macros \<^verbatim>\<open>SIGBUS\<close> and \<^verbatim>\<open>SIGSEGV\<close> of \<^verbatim>\<open>signal.h\<close>, and the size of a
  page, in whole numbers of which \<^verbatim>\<open>mmap\<close> maps.
\<close>

record platform =
  byte_order :: endian
  SIGBUS :: int
  SIGSEGV :: int
  page_size :: nat

text \<open>Keep track of this thread's jump point and whether it is set
  (\<^verbatim>\<open>thread_local volatile bool sigbus_jmp_set\<close>). The content of
  \<^verbatim>\<open>sigbus_jmp_buf\<close> is a control context; the model represents the jump to it by the
  exit \<open>Siglongjmp\<close> below, which travels to the \<^verbatim>\<open>sigsetjmp\<close> that is waiting for it.\<close>

record thread =
  sigbus_jmp_set :: bool

text \<open>A thread starts with its thread-local variables zero-initialised.\<close>

definition thread_start :: thread where
  "thread_start = \<lparr>sigbus_jmp_set = False\<rparr>"

text \<open>
  How the process can die under the code: an \<^verbatim>\<open>assert\<close> fails and \<^verbatim>\<open>abort()\<close> is
  called; the default action of a signal terminates it; a null pointer is dereferenced.
\<close>

datatype fatal = Assert_fail | Signal_kill int | Null_deref

text \<open>
  How code that runs under a jump point can leave: it falls off its end (\<open>Normal\<close>), a
  signal handler leaves through \<^verbatim>\<open>siglongjmp(buf, c)\<close>, or the process dies. How a call
  ends for its caller: it returns, or the process dies. A computation that never ends is
  \<open>None\<close> one level up.
\<close>

datatype 'a exit = Normal 'a | Siglongjmp int 'a | Fatal fatal

datatype 'a outcome = Returned 'a | Died fatal

subsection \<open>The signal handler and its installation\<close>

datatype sa_flag = SA_NODEFER | SA_RESETHAND | SA_SIGINFO | SA_RESTART

datatype sighandler = Handle_sigbus

record sigaction =
  sa_handler :: sighandler
  sa_flags :: "sa_flag set"
  sa_mask :: "int set"

text \<open>The system calls that the sources make.\<close>

datatype syscall = Sys_sigaction | Sys_stat64 | Sys_open | Sys_mmap | Sys_munmap

text \<open>The kernel resources of the process that the sources touch: the action registered
  for \<^verbatim>\<open>SIGBUS\<close> (\<open>None\<close> is \<^verbatim>\<open>SIG_DFL\<close>), the open file descriptors and the live
  mappings; and the log of the system calls the process has made, in the order it made
  them, one entry for each attempt.\<close>

record process =
  sigbus_action :: "sigaction option"
  open_fds :: "int set"
  mappings :: "(addr \<times> size_t) set"
  syscall_log :: "syscall list"

definition process_start :: process where
  "process_start =
     \<lparr>sigbus_action = None, open_fds = {0, 1, 2}, mappings = {}, syscall_log = []\<rparr>"

text \<open>\<^verbatim>\<open>handle_sigbus\<close>: only handle the signal if the jump point is set on this thread;
  otherwise the function falls off its end and the handler returns.\<close>

definition handle_sigbus :: "int \<Rightarrow> thread \<Rightarrow> thread exit" where
  "handle_sigbus c t =
     (if sigbus_jmp_set t then
        (let t1 = t\<lparr>sigbus_jmp_set := False\<rparr> in Siglongjmp c t1)
      else Normal t)"

definition install_signal_handlers :: "process \<Rightarrow> process" where
  "install_signal_handlers p =
     (let act = \<lparr>sa_handler = Handle_sigbus, sa_flags = {SA_NODEFER}, sa_mask = {}\<rparr>
      in p\<lparr>sigbus_action := Some act, syscall_log := syscall_log p @ [Sys_sigaction]\<rparr>)"

text \<open>
  The kernel's side of a faulting load, after POSIX \<^verbatim>\<open>sigaction\<close> and Linux (the platform
  the sources name as tested): the thread executes an instruction whose page has lost its
  backing. With \<^verbatim>\<open>SIG_DFL\<close> the process is terminated by the signal. With a handler
  registered the handler runs on the faulting thread; if it leaves by \<^verbatim>\<open>siglongjmp\<close>
  control continues at the jump point; if it returns, the faulting instruction is executed
  again, and faults again, since nothing has restored the backing. The action stays
  registered throughout: the sources set neither \<^verbatim>\<open>SA_RESETHAND\<close> nor call
  \<^verbatim>\<open>sigaction\<close> a second time. The captured variables \<open>s\<close> of the interrupted code are
  carried along unchanged.
\<close>

partial_function (option) raise_sigbus ::
  "platform \<Rightarrow> process \<Rightarrow> 's \<Rightarrow> thread \<Rightarrow> ('s \<times> thread) exit option" where
  "raise_sigbus pf p s t =
     (case sigbus_action p of
        None \<Rightarrow> Some (Fatal (Signal_kill (SIGBUS pf)))
      | Some act \<Rightarrow>
          (case sa_handler act of
             Handle_sigbus \<Rightarrow>
               (case handle_sigbus (SIGBUS pf) t of
                  Siglongjmp c t1 \<Rightarrow> Some (Siglongjmp c (s, t1))
                | Normal t1 \<Rightarrow> raise_sigbus pf p s t1
                | Fatal x \<Rightarrow> Some (Fatal x))))"

subsection \<open>Loads\<close>

text \<open>The \<open>n\<close> bytes from address \<open>a\<close> on, or \<open>None\<close> when one of them has no backing.\<close>

fun fetch :: "memory \<Rightarrow> addr \<Rightarrow> nat \<Rightarrow> byte list option" where
  "fetch m a 0 = Some []"
| "fetch m a (Suc n) =
     (case m a of
        Unbacked \<Rightarrow> None
      | Backed b \<Rightarrow> (case fetch m (a + 1) n of None \<Rightarrow> None | Some bs \<Rightarrow> Some (b # bs)))"

definition word_of_bytes :: "endian \<Rightarrow> byte list \<Rightarrow> int64_t" where
  "word_of_bytes e bs = (case e of Little_endian \<Rightarrow> word_rcat (rev bs) | Big_endian \<Rightarrow> word_rcat bs)"

text \<open>\<^verbatim>\<open>*(int64_t* )p\<close>: one 8-byte load in the byte order of the platform; \<open>None\<close> when
  the load raises \<^verbatim>\<open>SIGBUS\<close>.\<close>

definition load_int64 :: "platform \<Rightarrow> memory \<Rightarrow> addr \<Rightarrow> int64_t option" where
  "load_int64 pf m a = map_option (word_of_bytes (byte_order pf)) (fetch m a 8)"

text \<open>The address at which a load of \<open>n\<close> bytes from \<open>a\<close> on faults: the first of them that
  is not backed (\<open>a + n\<close> if all are, when the load does not fault).\<close>

fun fault_address :: "memory \<Rightarrow> addr \<Rightarrow> nat \<Rightarrow> addr" where
  "fault_address m a 0 = a"
| "fault_address m a (Suc n) =
     (case m a of Unbacked \<Rightarrow> a | Backed b \<Rightarrow> fault_address m (a + 1) n)"

subsection \<open>The guarded call\<close>

text \<open>What \<^verbatim>\<open>sigsetjmp\<close> returns when \<^verbatim>\<open>siglongjmp(buf, c)\<close> resumes it: \<open>c\<close>, except
  that 0 is replaced by 1.\<close>

definition sigsetjmp_resumed :: "int \<Rightarrow> int" where
  "sigsetjmp_resumed c = (if c = 0 then 1 else c)"

text \<open>
  \<^verbatim>\<open>safe_mmap_try(fn)\<close>. The closure \<open>fn\<close> acts on its captured variables \<open>s\<close> and on the
  thread. The first return of \<^verbatim>\<open>sigsetjmp\<close> is 0 and leads into the call of \<open>fn\<close>; a
  \<open>Siglongjmp\<close> out of \<open>fn\<close> is the second return of \<^verbatim>\<open>sigsetjmp\<close>, on which the source
  tests \<^verbatim>\<open>== 0\<close> again. That value is never 0 (\<open>sigsetjmp_resumed_nonzero\<close> below), so
  the second return always leads into the \<^verbatim>\<open>else\<close> branch, and what the model puts on the
  other side of the test is never reached.
\<close>

definition safe_mmap_try ::
  "('s \<Rightarrow> thread \<Rightarrow> ('s \<times> thread) exit option) \<Rightarrow> 's \<Rightarrow> thread
     \<Rightarrow> (bool \<times> 's \<times> thread) outcome option" where
  "safe_mmap_try fn s t =
     (if sigbus_jmp_set t then Some (Died Assert_fail)
      else
        (let t1 = t\<lparr>sigbus_jmp_set := True\<rparr> in
         case fn s t1 of
           None \<Rightarrow> None
         | Some (Normal (s2, t2)) \<Rightarrow> Some (Returned (True, s2, t2\<lparr>sigbus_jmp_set := False\<rparr>))
         | Some (Siglongjmp c (s2, t2)) \<Rightarrow>
             (if sigsetjmp_resumed c = 0 then None
              else Some (Returned (False, s2, t2\<lparr>sigbus_jmp_set := False\<rparr>)))
         | Some (Fatal x) \<Rightarrow> Some (Died x)))"

subsection \<open>The file object\<close>

text \<open>\<^verbatim>\<open>struct file\<close>; its field \<^verbatim>\<open>size\<close> is \<open>size_f\<close> here, as \<open>size\<close> is a constant of HOL.\<close>

record "file" =
  size_f :: size_t
  data :: addr

text \<open>
  The pages of the file's mapping. \<^verbatim>\<open>mmap(NULL, st.st_size, ...)\<close> maps whole pages from
  \<^verbatim>\<open>data\<close> on, as many as cover \<^verbatim>\<open>size\<close> bytes.
\<close>

definition mapped_length :: "platform \<Rightarrow> size_t \<Rightarrow> nat" where
  "mapped_length pf len =
     (let ps = page_size pf; n = unat len
      in if ps = 0 then n else ((n + ps - 1) div ps) * ps)"

definition in_mapping :: "platform \<Rightarrow> file \<Rightarrow> addr \<Rightarrow> bool" where
  "in_mapping pf f a = (unat (a - data f) < mapped_length pf (size_f f))"

text \<open>
  The kernel's answer to a load of 8 bytes from \<open>a\<close> on that meets a byte without backing.
  Inside the pages of the file's mapping the storage behind the page is gone, and the
  signal is \<^verbatim>\<open>SIGBUS\<close>. Outside them the address belongs to no mapping the program has
  made, and the signal is \<^verbatim>\<open>SIGSEGV\<close>: the sources register no action for it, so its
  default action terminates the process.
\<close>

definition load_fault ::
  "platform \<Rightarrow> process \<Rightarrow> memory \<Rightarrow> file \<Rightarrow> addr \<Rightarrow> 's \<Rightarrow> thread
     \<Rightarrow> ('s \<times> thread) exit option" where
  "load_fault pf p m f a s t =
     (if in_mapping pf f (fault_address m a 8) then raise_sigbus pf p s t
      else Some (Fatal (Signal_kill (SIGSEGV pf))))"

text \<open>The closure of \<^verbatim>\<open>file::read\<close>:
  \<^verbatim>\<open>*result = *(int64_t* )((int8_t* )data + offset)\<close>. Its captured variable is
  \<^verbatim>\<open>*result\<close>.\<close>

definition read_closure ::
  "platform \<Rightarrow> process \<Rightarrow> memory \<Rightarrow> file \<Rightarrow> size_t
     \<Rightarrow> int64_t \<Rightarrow> thread \<Rightarrow> (int64_t \<times> thread) exit option" where
  "read_closure pf p m f offset result t =
     (case load_int64 pf m (data f + offset) of
        Some v \<Rightarrow> Some (Normal (v, t))
      | None \<Rightarrow> load_fault pf p m f (data f + offset) result t)"

text \<open>\<^verbatim>\<open>bool file::read(size_t offset, int64_t * result)\<close>, the guarded reader. The
  subtraction is the one of \<^verbatim>\<open>size_t\<close>: it wraps.\<close>

definition file_read ::
  "platform \<Rightarrow> process \<Rightarrow> memory \<Rightarrow> file \<Rightarrow> size_t
     \<Rightarrow> int64_t \<Rightarrow> thread \<Rightarrow> (bool \<times> int64_t \<times> thread) outcome option" where
  "file_read pf p m f offset result t =
     (if \<not> offset \<le> size_f f - 8 then Some (Died Assert_fail)
      else safe_mmap_try (read_closure pf p m f offset) result t)"

text \<open>\<^verbatim>\<open>int64_t file::read(size_t offset)\<close> of the naive reader: the same bounds
  assertion and the same load, with nothing around it. A faulting load meets the kernel
  directly; the naive program installs no handler, so its process has \<^verbatim>\<open>SIG_DFL\<close>. It
  has no variables for a handler to carry along; 0 stands in their place.\<close>

definition naive_read ::
  "platform \<Rightarrow> process \<Rightarrow> memory \<Rightarrow> file \<Rightarrow> size_t \<Rightarrow> thread
     \<Rightarrow> (int64_t \<times> thread) exit option" where
  "naive_read pf p m f offset t =
     (if \<not> offset \<le> size_f f - 8 then Some (Fatal Assert_fail)
      else
        (case load_int64 pf m (data f + offset) of
           Some v \<Rightarrow> Some (Normal (v, t))
         | None \<Rightarrow> load_fault pf p m f (data f + offset) (0 :: int64_t) t))"

subsection \<open>Opening and destroying\<close>

text \<open>What the kernel answers to the three system calls of \<^verbatim>\<open>open_file\<close> for the given
  path: \<^verbatim>\<open>stat64\<close> fails (\<open>None\<close>) or fills in \<^verbatim>\<open>st.st_size\<close>; \<^verbatim>\<open>open\<close> returns a
  descriptor or a negative number; \<^verbatim>\<open>mmap\<close> returns \<^verbatim>\<open>MAP_FAILED\<close> (\<open>None\<close>) or an
  address.\<close>

record syscalls =
  stat64_ret :: "size_t option"
  open_ret :: int
  mmap_ret :: "addr option"

text \<open>Each system call enters the log when it is made, whether it succeeds or fails.\<close>

definition logged :: "syscall \<Rightarrow> process \<Rightarrow> process" where
  "logged c p = p\<lparr>syscall_log := syscall_log p @ [c]\<rparr>"

definition sys_stat64 :: "syscalls \<Rightarrow> process \<Rightarrow> size_t option \<times> process" where
  "sys_stat64 k p = (stat64_ret k, logged Sys_stat64 p)"

definition sys_open :: "syscalls \<Rightarrow> process \<Rightarrow> int \<times> process" where
  "sys_open k p =
     (let fd = open_ret k; p0 = logged Sys_open p
      in if fd < 0 then (fd, p0) else (fd, p0\<lparr>open_fds := insert fd (open_fds p0)\<rparr>))"

definition sys_mmap :: "syscalls \<Rightarrow> size_t \<Rightarrow> process \<Rightarrow> addr option \<times> process" where
  "sys_mmap k len p =
     (let p0 = logged Sys_mmap p
      in case mmap_ret k of
           None \<Rightarrow> (None, p0)
         | Some a \<Rightarrow> (Some a, p0\<lparr>mappings := insert (a, len) (mappings p0)\<rparr>))"

definition sys_munmap :: "addr \<Rightarrow> size_t \<Rightarrow> process \<Rightarrow> process" where
  "sys_munmap a len p =
     (let p0 = logged Sys_munmap p in p0\<lparr>mappings := mappings p0 - {(a, len)}\<rparr>)"

text \<open>\<^verbatim>\<open>open_file\<close> of the POSIX sources; \<open>None\<close> is \<^verbatim>\<open>nullptr\<close>.\<close>

definition open_file :: "syscalls \<Rightarrow> process \<Rightarrow> file option \<times> process" where
  "open_file k p =
     (case sys_stat64 k p of
        (None, p0) \<Rightarrow> (None, p0)
      | (Some st_size, p0) \<Rightarrow>
          (let (fd, p1) = sys_open k p0 in
           if fd < 0 then (None, p1)
           else
             (case sys_mmap k st_size p1 of
                (None, p2) \<Rightarrow> (None, p2)
              | (Some d, p2) \<Rightarrow> (Some \<lparr>size_f = st_size, data = d\<rparr>, p2))))"

text \<open>The destructor (\<^verbatim>\<open>~file\<close> in \<^verbatim>\<open>read_mmap.cc\<close>, \<^verbatim>\<open>~posix_file\<close> in the portable
  reader): \<^verbatim>\<open>munmap((void* )data, size)\<close>.\<close>

definition destroy_file :: "file \<Rightarrow> process \<Rightarrow> process" where
  "destroy_file f p = sys_munmap (data f) (size_f f) p"

subsection \<open>The driver\<close>

text \<open>
  What \<^verbatim>\<open>main\<close> writes to \<^verbatim>\<open>std::cout\<close>, and where a run stands after the iterations it
  was given input for. The loop is \<^verbatim>\<open>while (true)\<close>: each iteration draws an offset from the
  random generator and meets the mapping in the state it has at that moment, so a run is
  driven by the list of these pairs, and a run that has used them all is still
  \<open>Running\<close>. \<open>Hung\<close> is a read that never came back.
\<close>

datatype cout = Printed_value int64_t | Failed_to_read

datatype status = Running thread | Exited int | Dead fatal | Hung

text \<open>The loop of \<^verbatim>\<open>main\<close>. \<^verbatim>\<open>int64_t value\<close> is declared without an initialiser: it
  holds \<open>junk\<close> when the read begins.\<close>

fun main_loop ::
  "platform \<Rightarrow> process \<Rightarrow> file \<Rightarrow> (memory \<times> size_t) list \<Rightarrow> int64_t \<Rightarrow> thread
     \<Rightarrow> cout list \<times> status" where
  "main_loop pf p f [] junk t = ([], Running t)"
| "main_loop pf p f ((m, offset) # rest) junk t =
     (case file_read pf p m f offset junk t of
        None \<Rightarrow> ([], Hung)
      | Some (Died x) \<Rightarrow> ([], Dead x)
      | Some (Returned (ok, v, t1)) \<Rightarrow>
          (let (out, st) = main_loop pf p f rest junk t1
           in if ok then (Printed_value v # out, st) else (Failed_to_read # out, st)))"

text \<open>\<^verbatim>\<open>main\<close>. The result of \<^verbatim>\<open>open_file\<close> is used unchecked: \<^verbatim>\<open>f->size\<close> with
  \<^verbatim>\<open>f == nullptr\<close> dereferences the null pointer.\<close>

definition main ::
  "platform \<Rightarrow> int \<Rightarrow> syscalls \<Rightarrow> (memory \<times> size_t) list \<Rightarrow> int64_t \<Rightarrow> process \<Rightarrow> thread
     \<Rightarrow> cout list \<times> status" where
  "main pf argc k inputs junk p t =
     (if argc \<noteq> 2 then ([], Exited 1)
      else
        (let p1 = install_signal_handlers p;
             (fo, p2) = open_file k p1
         in case fo of
              None \<Rightarrow> ([], Dead Null_deref)
            | Some f \<Rightarrow> main_loop pf p2 f inputs junk t))"

subsection \<open>The reading of the specification\<close>

text \<open>
  The specification speaks of ``the 8 bytes at \<open>o\<close> interpreted as a native-endian signed
  64-bit integer''. These definitions follow its words, by arithmetic on integers and
  independently of the word operations of \<open>load_int64\<close>: the bytes at an address, their
  unsigned value with the least significant byte first, and the two's complement reading
  of that value in the byte order of the platform.
\<close>

definition spec_bytes_at :: "memory \<Rightarrow> addr \<Rightarrow> nat \<Rightarrow> byte list" where
  "spec_bytes_at m a n =
     map (\<lambda>i. case m (a + of_nat i) of Backed b \<Rightarrow> b | Unbacked \<Rightarrow> 0) [0..<n]"

fun spec_unsigned :: "byte list \<Rightarrow> int" where
  "spec_unsigned [] = 0"
| "spec_unsigned (b # bs) = uint b + 256 * spec_unsigned bs"

definition spec_int64_of_bytes :: "endian \<Rightarrow> byte list \<Rightarrow> int" where
  "spec_int64_of_bytes e bs =
     (let u = spec_unsigned (case e of Little_endian \<Rightarrow> bs | Big_endian \<Rightarrow> rev bs)
      in if u < 2 ^ 63 then u else u - 2 ^ 64)"

subsection \<open>Concrete inputs\<close>

text \<open>A little-endian Linux, where \<^verbatim>\<open>SIGBUS\<close> is 7, \<^verbatim>\<open>SIGSEGV\<close> is 11 and a page has
  4096 bytes.\<close>

definition little_linux :: platform where
  "little_linux =
     \<lparr>byte_order = Little_endian, SIGBUS = 7, SIGSEGV = 11, page_size = 4096\<rparr>"

text \<open>The scenario of the specification: a 16-byte file holding the little-endian encoding
  of 42 followed by 8 zero bytes, mapped at address 4096; nothing else is backed.\<close>

definition scenario_file :: "file" where
  "scenario_file = \<lparr>size_f = 16, data = 4096\<rparr>"

definition scenario_memory :: memory where
  "scenario_memory a =
     (if a - 4096 < 16 then Backed (if a = 4096 then 42 else 0) else Unbacked)"

text \<open>The same mapping after the file has been truncated to length 0: no byte of it is
  backed any more.\<close>

definition truncated_memory :: memory where
  "truncated_memory a = Unbacked"

text \<open>A file of 4 bytes, mapped at address 4096: the kernel maps a whole page and fills
  what lies behind the end of the file with zeros.\<close>

definition short_file :: "file" where
  "short_file = \<lparr>size_f = 4, data = 4096\<rparr>"

definition short_memory :: memory where
  "short_memory a =
     (if a - 4096 < 4096 then Backed (if a - 4096 < 4 then 255 else 0) else Unbacked)"

text \<open>Answers of the kernel for a path that opens (descriptor 3, 16 bytes, mapped at 4096),
  and for paths on which \<^verbatim>\<open>stat64\<close>, \<^verbatim>\<open>open\<close> or \<^verbatim>\<open>mmap\<close> fails.\<close>

definition good_path :: syscalls where
  "good_path = \<lparr>stat64_ret = Some 16, open_ret = 3, mmap_ret = Some 4096\<rparr>"

definition missing_path :: syscalls where
  "missing_path = \<lparr>stat64_ret = None, open_ret = - 1, mmap_ret = None\<rparr>"

definition unreadable_path :: syscalls where
  "unreadable_path = \<lparr>stat64_ret = Some 16, open_ret = - 1, mmap_ret = None\<rparr>"

definition unmappable_path :: syscalls where
  "unmappable_path = \<lparr>stat64_ret = Some 16, open_ret = 3, mmap_ret = None\<rparr>"

text \<open>A closure that performs a guarded read from inside a guarded call: what a caller
  would have to write to nest two recovery points on one thread.\<close>

definition nested_closure ::
  "platform \<Rightarrow> process \<Rightarrow> memory \<Rightarrow> file \<Rightarrow> size_t
     \<Rightarrow> int64_t \<Rightarrow> thread \<Rightarrow> (int64_t \<times> thread) exit option" where
  "nested_closure pf p m f offset result t =
     (case file_read pf p m f offset result t of
        None \<Rightarrow> None
      | Some (Died x) \<Rightarrow> Some (Fatal x)
      | Some (Returned (ok, v, t1)) \<Rightarrow> Some (Normal (v, t1)))"

section \<open>Basic facts\<close>

subsection \<open>The thread-local flag and the kernel\<close>

lemma thread_clear_id: "\<not> sigbus_jmp_set t \<Longrightarrow> t\<lparr>sigbus_jmp_set := False\<rparr> = t"
  by (cases t) simp

lemma sigsetjmp_resumed_nonzero: "sigsetjmp_resumed c \<noteq> 0"
  by (simp add: sigsetjmp_resumed_def)

lemma installed_action:
  "sigbus_action (install_signal_handlers p) =
     Some \<lparr>sa_handler = Handle_sigbus, sa_flags = {SA_NODEFER}, sa_mask = {}\<rparr>"
  by (simp add: install_signal_handlers_def)

lemma raise_sigbus_default:
  "sigbus_action p = None \<Longrightarrow> raise_sigbus pf p s t = Some (Fatal (Signal_kill (SIGBUS pf)))"
  by (subst raise_sigbus.simps) simp

lemma raise_sigbus_armed:
  "sigbus_action p = Some act \<Longrightarrow> sigbus_jmp_set t \<Longrightarrow>
   raise_sigbus pf p s t = Some (Siglongjmp (SIGBUS pf) (s, t\<lparr>sigbus_jmp_set := False\<rparr>))"
  by (subst raise_sigbus.simps) (simp add: handle_sigbus_def split: sighandler.split)

text \<open>Whenever the kernel's loop comes to an end under a registered handler, the flag was
  set: by fixpoint induction on \<open>raise_sigbus\<close>.\<close>

lemma raise_sigbus_ends_armed:
  assumes "raise_sigbus pf p s t = Some y"
  shows "sigbus_action p \<noteq> None \<longrightarrow> sigbus_jmp_set t"
proof (rule raise_sigbus.raw_induct
    [where P = "\<lambda>pf p s t y. sigbus_action p \<noteq> None \<longrightarrow> sigbus_jmp_set t", OF _ assms])
  fix rs :: "platform \<Rightarrow> process \<Rightarrow> 'a \<Rightarrow> thread \<Rightarrow> ('a \<times> thread) exit option"
  fix pf p s t y
  assume IH: "\<And>pf p s t y. rs pf p s t = Some y \<Longrightarrow> sigbus_action p \<noteq> None \<longrightarrow> sigbus_jmp_set t"
  assume step: "(case sigbus_action p of
        None \<Rightarrow> Some (Fatal (Signal_kill (SIGBUS pf)))
      | Some act \<Rightarrow>
          (case sa_handler act of
             Handle_sigbus \<Rightarrow>
               (case handle_sigbus (SIGBUS pf) t of
                  Normal t1 \<Rightarrow> rs pf p s t1
                | Siglongjmp c t1 \<Rightarrow> Some (Siglongjmp c (s, t1))
                | Fatal x \<Rightarrow> Some (Fatal x)))) = Some y"
  show "sigbus_action p \<noteq> None \<longrightarrow> sigbus_jmp_set t"
  proof (cases "sigbus_jmp_set t")
    case True
    then show ?thesis by simp
  next
    case False
    show ?thesis
    proof
      assume "sigbus_action p \<noteq> None"
      then obtain act where act: "sigbus_action p = Some act" by auto
      from step act False have "rs pf p s t = Some y"
        by (simp add: handle_sigbus_def split: sighandler.splits)
      from IH [OF this] act show "sigbus_jmp_set t" by simp
    qed
  qed
qed

lemma raise_sigbus_unarmed:
  "sigbus_action p = Some act \<Longrightarrow> \<not> sigbus_jmp_set t \<Longrightarrow> raise_sigbus pf p s t = None"
  using raise_sigbus_ends_armed [of pf p s t] by (cases "raise_sigbus pf p s t") auto

subsection \<open>Loads\<close>

lemma fetch_numeral:
  "fetch m a (numeral k) =
     (case m a of
        Unbacked \<Rightarrow> None
      | Backed b \<Rightarrow>
          (case fetch m (a + 1) (pred_numeral k) of None \<Rightarrow> None | Some bs \<Rightarrow> Some (b # bs)))"
  by (simp add: numeral_eq_Suc)

lemma length_spec_bytes_at: "length (spec_bytes_at m a n) = n"
  by (simp add: spec_bytes_at_def)

lemma fetch_backed:
  "(\<forall>i<n. m (a + of_nat i) \<noteq> Unbacked) \<Longrightarrow> fetch m a n = Some (spec_bytes_at m a n)"
proof (induction n arbitrary: a)
  case 0
  show ?case by (simp add: spec_bytes_at_def)
next
  case (Suc n)
  from Suc.prems have hd: "m a \<noteq> Unbacked" by (auto dest: spec [of _ 0])
  have "\<forall>i<n. m ((a + 1) + of_nat i) \<noteq> Unbacked"
  proof (intro allI impI)
    fix i assume "i < n"
    then have "m (a + of_nat (Suc i)) \<noteq> Unbacked" using Suc.prems by auto
    then show "m ((a + 1) + of_nat i) \<noteq> Unbacked" by (simp add: ac_simps)
  qed
  from Suc.IH [OF this] have tl: "fetch m (a + 1) n = Some (spec_bytes_at m (a + 1) n)" .
  have upt: "[0..<Suc n] = 0 # map Suc [0..<n]"
    by (simp only: upt_conv_Cons [OF zero_less_Suc] map_Suc_upt)
  have shift: "spec_bytes_at m a (Suc n) =
      (case m a of Backed b \<Rightarrow> b | Unbacked \<Rightarrow> 0) # spec_bytes_at m (a + 1) n"
    unfolding spec_bytes_at_def upt by (simp add: o_def add.assoc)
  from hd tl shift show ?case by (cases "m a") simp_all
qed

lemma fetch_unbacked:
  "i < n \<Longrightarrow> m (a + of_nat i) = Unbacked \<Longrightarrow> fetch m a n = None"
proof (induction n arbitrary: a i)
  case 0
  then show ?case by simp
next
  case (Suc n)
  show ?case
  proof (cases i)
    case 0
    with Suc.prems show ?thesis by simp
  next
    case (Suc j)
    with Suc.prems have "j < n" "m ((a + 1) + of_nat j) = Unbacked"
      by (simp_all add: ac_simps)
    from Suc.IH [OF this] show ?thesis by (simp split: cell.split)
  qed
qed

lemma load_int64_backed:
  "(\<forall>i<8. m (a + of_nat i) \<noteq> Unbacked) \<Longrightarrow>
   load_int64 pf m a = Some (word_of_bytes (byte_order pf) (spec_bytes_at m a 8))"
  by (simp only: load_int64_def fetch_backed option.map)

lemma load_int64_unbacked:
  "i < 8 \<Longrightarrow> m (a + of_nat i) = Unbacked \<Longrightarrow> load_int64 pf m a = None"
  by (simp only: load_int64_def fetch_unbacked option.map)

text \<open>A load that faults does so at one of the bytes it touches.\<close>

lemma fault_address_numeral:
  "fault_address m a (numeral k) =
     (case m a of Unbacked \<Rightarrow> a | Backed b \<Rightarrow> fault_address m (a + 1) (pred_numeral k))"
  by (simp add: numeral_eq_Suc)

lemma fault_address_touched:
  "fetch m a n = None \<Longrightarrow> \<exists>j<n. fault_address m a n = a + of_nat j"
proof (induction n arbitrary: a)
  case 0
  then show ?case by simp
next
  case (Suc n)
  show ?case
  proof (cases "m a")
    case Unbacked
    then have "fault_address m a (Suc n) = a + of_nat 0" by simp
    then show ?thesis by blast
  next
    case (Backed b)
    with Suc.prems have "fetch m (a + 1) n = None" by (simp split: option.splits)
    from Suc.IH [OF this] obtain j where j: "j < n"
      and fa: "fault_address m (a + 1) n = (a + 1) + of_nat j" by blast
    from Backed fa have "fault_address m a (Suc n) = a + of_nat (Suc j)"
      by (simp add: ac_simps)
    with j show ?thesis by (metis Suc_less_eq)
  qed
qed

lemma load_fault_address_touched:
  "load_int64 pf m a = None \<Longrightarrow> \<exists>j<8. fault_address m a 8 = a + of_nat j"
  by (rule fault_address_touched) (simp add: load_int64_def)

subsection \<open>The bytes as a signed integer\<close>

lemma spec_unsigned_horner: "spec_unsigned bs = horner_sum uint 256 bs"
  by (induction bs) simp_all

lemma spec_unsigned_bounds: "0 \<le> spec_unsigned bs \<and> spec_unsigned bs < 256 ^ length bs"
proof (induction bs)
  case Nil
  show ?case by simp
next
  case (Cons b bs)
  have "uint b < 256" using uint_bounded [of b] by simp
  moreover have "0 \<le> uint b" by simp
  moreover have "spec_unsigned bs + 1 \<le> 256 ^ length bs" using Cons by simp
  then have "256 * (spec_unsigned bs + 1) \<le> 256 * 256 ^ length bs" by simp
  ultimately show ?case using Cons by (simp add: algebra_simps)
qed

lemma sint_word_of_int64:
  assumes "0 \<le> u" "u < 2 ^ 64"
  shows "sint (word_of_int u :: 64 word) = (if u < 2 ^ 63 then u else u - 2 ^ 64)"
proof -
  have "sint (word_of_int u :: 64 word) = (u + 2 ^ 63) mod 2 ^ 64 - 2 ^ 63"
    by (simp add: int_word_sint)
  also have "\<dots> = (if u < 2 ^ 63 then u else u - 2 ^ 64)"
  proof (cases "u < 2 ^ 63")
    case True
    then have "(u + 2 ^ 63) mod 2 ^ 64 = u + 2 ^ 63" using assms by (intro mod_pos_pos_trivial) auto
    then show ?thesis using True by simp
  next
    case False
    have e: "u + 2 ^ 63 = (u - 2 ^ 63) + 2 ^ 64" by simp
    have "(u - 2 ^ 63 + 2 ^ 64) mod 2 ^ 64 = (u - 2 ^ 63) mod 2 ^ 64"
      by (simp only: mod_add_self2)
    also have "\<dots> = u - 2 ^ 63" using False assms by (intro mod_pos_pos_trivial) auto
    finally have "(u + 2 ^ 63) mod 2 ^ 64 = u - 2 ^ 63" by (simp only: e)
    then show ?thesis using False by simp
  qed
  finally show ?thesis .
qed

text \<open>The word that the load assembles, read as two's complement, is the integer of the
  specification.\<close>

lemma sint_word_of_bytes:
  assumes "length bs = 8"
  shows "sint (word_of_bytes e bs) = spec_int64_of_bytes e bs"
proof -
  define cs where "cs = (case e of Little_endian \<Rightarrow> bs | Big_endian \<Rightarrow> rev bs)"
  have len: "length cs = 8" using assms by (simp add: cs_def split: endian.split)
  have w: "word_of_bytes e bs = word_of_int (spec_unsigned cs)"
    by (simp add: word_of_bytes_def word_rcat_def spec_unsigned_horner cs_def split: endian.split)
  have b: "0 \<le> spec_unsigned cs" "spec_unsigned cs < 2 ^ 64"
    using spec_unsigned_bounds [of cs] len by simp_all
  show ?thesis
    unfolding w spec_int64_of_bytes_def cs_def [symmetric] Let_def
    by (rule sint_word_of_int64 [OF b])
qed

subsection \<open>The bounds assertion\<close>

lemma bounds_word:
  assumes b: "unat offset + 8 \<le> unat (sz :: 64 word)"
  shows "offset \<le> sz - 8"
proof -
  have "unat (8 :: 64 word) = 8" by simp
  with b have "(8 :: 64 word) \<le> sz" by (simp add: word_le_nat_alt)
  then have "unat (sz - 8) = unat sz - unat (8 :: 64 word)" by (rule unat_sub)
  then show ?thesis using b by (simp add: word_le_nat_alt)
qed

lemma bounds_inside:
  assumes b: "unat offset + 8 \<le> unat (sz :: 64 word)" and "i < 8"
  shows "offset + of_nat i < sz"
proof -
  have sz: "unat sz < 2 ^ 64" using unsigned_less [of sz, where 'a = nat] by simp
  have i: "unat (of_nat i :: 64 word) = i" using assms(2) by (simp add: unat_of_nat)
  have "unat offset + unat (of_nat i :: 64 word) < 2 ^ LENGTH(64)" using b sz i assms(2) by simp
  then have "unat (offset + of_nat i) = unat offset + unat (of_nat i :: 64 word)"
    by (simp only: unat_add_lem [THEN iffD1])
  then show ?thesis using b i assms(2) by (simp add: word_less_nat_alt)
qed

text \<open>For a file of at least 8 bytes the assertion of \<^verbatim>\<open>file::read\<close> is the bound
  \<open>offset + 8 \<le> size\<close> on natural numbers.\<close>

lemma bounds_word_conv:
  assumes "8 \<le> (sz :: 64 word)"
  shows "offset \<le> sz - 8 \<longleftrightarrow> unat offset + 8 \<le> unat sz"
proof -
  have e: "unat (8 :: 64 word) = 8" by simp
  have "unat (sz - 8) = unat sz - unat (8 :: 64 word)" using assms by (rule unat_sub)
  moreover have "8 \<le> unat sz" using assms e by (simp add: word_le_nat_alt)
  ultimately show ?thesis by (simp add: word_le_nat_alt) linarith
qed

text \<open>The pages of the mapping cover the file, and so every byte that a read within the
  bound \<open>offset + 8 \<le> size\<close> touches.\<close>

lemma mapped_length_covers: "unat len \<le> mapped_length pf len"
proof (cases "page_size pf = 0")
  case True
  then show ?thesis by (simp add: mapped_length_def)
next
  case False
  let ?ps = "page_size pf"
  let ?n = "unat len + ?ps - 1"
  have "?n div ?ps * ?ps + ?n mod ?ps = ?n" by (rule div_mult_mod_eq)
  moreover have "?n mod ?ps < ?ps" using False by simp
  ultimately have "unat len \<le> ?n div ?ps * ?ps" by linarith
  with False show ?thesis by (simp add: mapped_length_def Let_def)
qed

lemma in_mapping_inside:
  assumes b: "unat offset + 8 \<le> unat (size_f f)" and j: "j < 8"
  shows "in_mapping pf f (data f + offset + of_nat j)"
proof -
  have sz: "unat (size_f f) < 2 ^ 64" using unsigned_less [of "size_f f", where 'a = nat] by simp
  have i: "unat (of_nat j :: 64 word) = j" using j by (simp add: unat_of_nat)
  have "unat offset + unat (of_nat j :: 64 word) < 2 ^ LENGTH(64)" using b sz i j by simp
  then have "unat (offset + of_nat j) = unat offset + unat (of_nat j :: 64 word)"
    by (simp only: unat_add_lem [THEN iffD1])
  with i b j have "unat (offset + of_nat j) < unat (size_f f)" by simp
  moreover have "data f + offset + of_nat j - data f = offset + of_nat j" by simp
  ultimately show ?thesis
    using mapped_length_covers [of "size_f f" pf] by (simp add: in_mapping_def)
qed

lemma fault_in_mapping:
  assumes "unat offset + 8 \<le> unat (size_f f)" and "load_int64 pf m (data f + offset) = None"
  shows "in_mapping pf f (fault_address m (data f + offset) 8)"
proof -
  from load_fault_address_touched [OF assms(2)] obtain j where "j < 8"
    and "fault_address m (data f + offset) 8 = data f + offset + of_nat j" by blast
  with in_mapping_inside [OF assms(1), of j pf] show ?thesis by simp
qed

subsection \<open>What a guarded read returns\<close>

lemma safe_mmap_try_armed: "sigbus_jmp_set t \<Longrightarrow> safe_mmap_try fn s t = Some (Died Assert_fail)"
  by (simp add: safe_mmap_try_def)

lemma file_read_out_of_bounds:
  "\<not> offset \<le> size_f f - 8 \<Longrightarrow> file_read pf p m f offset r t = Some (Died Assert_fail)"
  by (simp add: file_read_def)

lemma file_read_loaded:
  assumes "offset \<le> size_f f - 8" "\<not> sigbus_jmp_set t"
    "load_int64 pf m (data f + offset) = Some v"
  shows "file_read pf p m f offset r t = Some (Returned (True, v, t))"
  using assms
  by (simp add: file_read_def safe_mmap_try_def read_closure_def thread_clear_id)

lemma file_read_fault:
  assumes "offset \<le> size_f f - 8" "\<not> sigbus_jmp_set t"
    "load_int64 pf m (data f + offset) = None"
    "in_mapping pf f (fault_address m (data f + offset) 8)" "sigbus_action p = Some act"
  shows "file_read pf p m f offset r t = Some (Returned (False, r, t))"
  using assms
  by (simp add: file_read_def safe_mmap_try_def read_closure_def load_fault_def thread_clear_id
      raise_sigbus_armed sigsetjmp_resumed_nonzero)

lemma file_read_fault_default:
  assumes "offset \<le> size_f f - 8" "\<not> sigbus_jmp_set t"
    "load_int64 pf m (data f + offset) = None"
    "in_mapping pf f (fault_address m (data f + offset) 8)" "sigbus_action p = None"
  shows "file_read pf p m f offset r t = Some (Died (Signal_kill (SIGBUS pf)))"
  using assms
  by (simp add: file_read_def safe_mmap_try_def read_closure_def load_fault_def
      raise_sigbus_default)

text \<open>A load that faults outside the pages of the mapping kills the process, with or
  without the handler for \<^verbatim>\<open>SIGBUS\<close>.\<close>

lemma file_read_fault_outside:
  assumes "offset \<le> size_f f - 8" "\<not> sigbus_jmp_set t"
    "load_int64 pf m (data f + offset) = None"
    "\<not> in_mapping pf f (fault_address m (data f + offset) 8)"
  shows "file_read pf p m f offset r t = Some (Died (Signal_kill (SIGSEGV pf)))"
  using assms
  by (simp add: file_read_def safe_mmap_try_def read_closure_def load_fault_def)

text \<open>A guarded read that returns was entered with the flag clear and leaves it clear.\<close>

lemma safe_mmap_try_returned:
  assumes "safe_mmap_try fn s t = Some (Returned (ok, s', t'))"
  shows "\<not> sigbus_jmp_set t \<and> \<not> sigbus_jmp_set t'"
  using assms
  by (auto simp: safe_mmap_try_def Let_def split: if_splits option.splits exit.splits)

lemma file_read_returned:
  assumes "file_read pf p m f offset r t = Some (Returned (ok, v, t'))"
  shows "\<not> sigbus_jmp_set t \<and> \<not> sigbus_jmp_set t'"
  using assms safe_mmap_try_returned [of "read_closure pf p m f offset" r t ok v t']
  by (simp add: file_read_def split: if_splits)


subsection \<open>The concrete inputs, evaluated\<close>

lemma scenario_load_0: "load_int64 little_linux scenario_memory 4096 = Some 42"
  by (simp add: load_int64_def little_linux_def scenario_memory_def fetch_numeral
      word_of_bytes_def word_rcat_def)

lemma scenario_load_8: "load_int64 little_linux scenario_memory 4104 = Some 0"
  by (simp add: load_int64_def little_linux_def scenario_memory_def fetch_numeral
      word_of_bytes_def word_rcat_def)

lemma truncated_load: "load_int64 pf truncated_memory a = None"
  by (simp add: load_int64_def truncated_memory_def fetch_numeral)

lemma truncated_fault_address: "fault_address truncated_memory a 8 = a"
  by (simp add: truncated_memory_def fault_address_numeral)

lemma scenario_in_mapping_0:
  "in_mapping little_linux scenario_file (fault_address truncated_memory (data scenario_file + 0) 8)"
  by (simp add: truncated_fault_address in_mapping_def mapped_length_def little_linux_def
      scenario_file_def)

lemma scenario_in_mapping_8:
  "in_mapping little_linux scenario_file (fault_address truncated_memory (data scenario_file + 8) 8)"
  by (simp add: truncated_fault_address in_mapping_def mapped_length_def little_linux_def
      scenario_file_def)

lemma short_load_0: "load_int64 little_linux short_memory 4096 = Some 4294967295"
  by (simp add: load_int64_def little_linux_def short_memory_def fetch_numeral
      word_of_bytes_def word_rcat_def)

lemma scenario_backed:
  "\<forall>i. i < size_f scenario_file \<longrightarrow> scenario_memory (data scenario_file + i) \<noteq> Unbacked"
  by (simp add: scenario_file_def scenario_memory_def)

lemma scenario_spec_0:
  "spec_int64_of_bytes Little_endian (spec_bytes_at scenario_memory 4096 8) = 42"
  by (simp add: spec_int64_of_bytes_def spec_bytes_at_def scenario_memory_def upt_rec)

lemma scenario_spec_8:
  "spec_int64_of_bytes Little_endian (spec_bytes_at scenario_memory 4104 8) = 0"
  by (simp add: spec_int64_of_bytes_def spec_bytes_at_def scenario_memory_def upt_rec)

lemma thread_start_idle: "\<not> sigbus_jmp_set thread_start"
  by (simp add: thread_start_def)

section \<open>The properties of the specification\<close>

text \<open>
  C1. For every offset \<open>o\<close> with \<open>0 \<le> o \<le> size - 8\<close> on a stable, fully backed mapping, the
  guarded read returns success, and the value it stores is the 8 bytes at \<open>o\<close> read as a
  signed 64-bit integer in the byte order of the platform. The bound is stated on natural
  numbers, \<open>o + 8 \<le> size\<close>; the thread is outside any guarded call, as it is at every call
  that \<^verbatim>\<open>main\<close> makes.
\<close>

theorem guarded_read_valid_offset:
  assumes backed: "\<forall>i. i < size_f f \<longrightarrow> m (data f + i) \<noteq> Unbacked"
    and bounds: "unat offset + 8 \<le> unat (size_f f)"
    and idle: "\<not> sigbus_jmp_set t"
  shows "\<exists>v. file_read pf p m f offset r t = Some (Returned (True, v, t)) \<and>
             sint v = spec_int64_of_bytes (byte_order pf) (spec_bytes_at m (data f + offset) 8)"
proof -
  let ?a = "data f + offset"
  let ?bs = "spec_bytes_at m ?a 8"
  have cells: "\<forall>i<8. m (?a + of_nat i) \<noteq> Unbacked"
  proof (intro allI impI)
    fix i :: nat assume "i < 8"
    from bounds_inside [OF bounds this] backed
    have "m (data f + (offset + of_nat i)) \<noteq> Unbacked" by blast
    then show "m (?a + of_nat i) \<noteq> Unbacked" by (simp add: add.assoc)
  qed
  have "load_int64 pf m ?a = Some (word_of_bytes (byte_order pf) ?bs)"
    by (rule load_int64_backed [OF cells])
  from file_read_loaded [OF bounds_word [OF bounds] idle this]
  have "file_read pf p m f offset r t = Some (Returned (True, word_of_bytes (byte_order pf) ?bs, t))" .
  moreover have "sint (word_of_bytes (byte_order pf) ?bs) = spec_int64_of_bytes (byte_order pf) ?bs"
    by (rule sint_word_of_bytes) (rule length_spec_bytes_at)
  ultimately show ?thesis by blast
qed

text \<open>The scenario of the specification: on the 16-byte file, the read at offset 0 yields 42
  and the read at offset 8 yields 0.\<close>

theorem guarded_read_valid_offset_witness:
  "unat (0 :: size_t) + 8 \<le> unat (size_f scenario_file) \<and>
   unat (8 :: size_t) + 8 \<le> unat (size_f scenario_file) \<and>
   \<not> sigbus_jmp_set thread_start \<and>
   file_read little_linux (install_signal_handlers process_start) scenario_memory scenario_file
     0 0 thread_start = Some (Returned (True, 42, thread_start)) \<and>
   file_read little_linux (install_signal_handlers process_start) scenario_memory scenario_file
     8 0 thread_start = Some (Returned (True, 0, thread_start))"
proof -
  let ?p = "install_signal_handlers process_start"
  have b0: "unat (0 :: size_t) + 8 \<le> unat (size_f scenario_file)"
    by (simp add: scenario_file_def)
  have b8: "unat (8 :: size_t) + 8 \<le> unat (size_f scenario_file)"
    by (simp add: scenario_file_def)
  from guarded_read_valid_offset [OF scenario_backed b0 thread_start_idle,
      of little_linux ?p 0]
  obtain v where v: "file_read little_linux ?p scenario_memory scenario_file 0 0 thread_start
        = Some (Returned (True, v, thread_start))"
    and sv: "sint v = spec_int64_of_bytes (byte_order little_linux)
        (spec_bytes_at scenario_memory (data scenario_file + 0) 8)" by blast
  from sv have "sint v = sint (42 :: 64 word)"
    by (simp add: little_linux_def scenario_file_def scenario_spec_0)
  then have v42: "v = 42" by (rule signed_word_eqI)
  from guarded_read_valid_offset [OF scenario_backed b8 thread_start_idle,
      of little_linux ?p 0]
  obtain w where w: "file_read little_linux ?p scenario_memory scenario_file 8 0 thread_start
        = Some (Returned (True, w, thread_start))"
    and sw: "sint w = spec_int64_of_bytes (byte_order little_linux)
        (spec_bytes_at scenario_memory (data scenario_file + 8) 8)" by blast
  from sw have "sint w = sint (0 :: 64 word)"
    by (simp add: little_linux_def scenario_file_def scenario_spec_8)
  then have w0: "w = 0" by (rule signed_word_eqI)
  from v w v42 w0 b0 b8 thread_start_idle show ?thesis by simp
qed

text \<open>
  C2. The flag \<^verbatim>\<open>sigbus_jmp_set\<close> of the thread is false immediately before and
  immediately after every guarded read, on both paths by which the read returns, so that a
  read on valid data that follows a read that faulted succeeds. First part: a guarded read
  that returns was entered with the flag false and leaves it false, and any later read of
  valid data from the thread it leaves behind returns success. Second part: with the
  handler installed, a read entered with the flag false at an offset inside the file,
  \<open>offset + 8 \<le> size\<close>, does return, whatever has become of the backing of the file.
\<close>

theorem recovery_flag_false_around_guarded_read:
  "(file_read pf p m f offset r t = Some (Returned (ok, v, t')) \<longrightarrow>
      \<not> sigbus_jmp_set t \<and> \<not> sigbus_jmp_set t' \<and>
      (\<forall>m2 offset2 v2.
         offset2 \<le> size_f f - 8 \<longrightarrow> load_int64 pf m2 (data f + offset2) = Some v2 \<longrightarrow>
         file_read pf p m2 f offset2 v t' = Some (Returned (True, v2, t')))) \<and>
   (\<not> sigbus_jmp_set t \<longrightarrow> sigbus_action p \<noteq> None \<longrightarrow>
      unat offset + 8 \<le> unat (size_f f) \<longrightarrow>
      (\<exists>ok1 v1. file_read pf p m f offset r t = Some (Returned (ok1, v1, t))))"
proof (intro conjI impI)
  assume ret: "file_read pf p m f offset r t = Some (Returned (ok, v, t'))"
  from file_read_returned [OF ret] show "\<not> sigbus_jmp_set t" by simp
  from file_read_returned [OF ret] show idle': "\<not> sigbus_jmp_set t'" by simp
  show "\<forall>m2 offset2 v2.
         offset2 \<le> size_f f - 8 \<longrightarrow> load_int64 pf m2 (data f + offset2) = Some v2 \<longrightarrow>
         file_read pf p m2 f offset2 v t' = Some (Returned (True, v2, t'))"
    using file_read_loaded [OF _ idle'] by blast
next
  assume idle: "\<not> sigbus_jmp_set t" and inst: "sigbus_action p \<noteq> None"
    and inside: "unat offset + 8 \<le> unat (size_f f)"
  from inst obtain act where act: "sigbus_action p = Some act" by auto
  note bounds = bounds_word [OF inside]
  show "\<exists>ok1 v1. file_read pf p m f offset r t = Some (Returned (ok1, v1, t))"
  proof (cases "load_int64 pf m (data f + offset)")
    case None
    from file_read_fault [OF bounds idle None fault_in_mapping [OF inside None] act]
    show ?thesis by blast
  next
    case (Some v)
    from file_read_loaded [OF bounds idle Some] show ?thesis by blast
  qed
qed

text \<open>Two sequential guarded reads on a fresh thread: the first meets the truncated
  mapping and reports the fault, the second meets valid data and succeeds.\<close>

theorem recovery_flag_false_around_guarded_read_witness:
  "\<not> sigbus_jmp_set thread_start \<and>
   sigbus_action (install_signal_handlers process_start) \<noteq> None \<and>
   unat (0 :: size_t) + 8 \<le> unat (size_f scenario_file) \<and>
   (0 :: size_t) \<le> size_f scenario_file - 8 \<and>
   load_int64 little_linux scenario_memory (data scenario_file + 0) = Some 42 \<and>
   file_read little_linux (install_signal_handlers process_start) truncated_memory scenario_file
     0 0 thread_start = Some (Returned (False, 0, thread_start)) \<and>
   file_read little_linux (install_signal_handlers process_start) scenario_memory scenario_file
     0 0 thread_start = Some (Returned (True, 42, thread_start))"
proof -
  let ?p = "install_signal_handlers process_start"
  have inst: "sigbus_action ?p \<noteq> None" by (simp add: installed_action)
  have inside: "unat (0 :: size_t) + 8 \<le> unat (size_f scenario_file)"
    by (simp add: scenario_file_def)
  have bounds: "(0 :: size_t) \<le> size_f scenario_file - 8" by (simp add: scenario_file_def)
  have load: "load_int64 little_linux scenario_memory (data scenario_file + 0) = Some 42"
    by (simp add: scenario_file_def scenario_load_0)
  from recovery_flag_false_around_guarded_read
    [of little_linux ?p truncated_memory scenario_file 0 0 thread_start]
    thread_start_idle inst inside
  obtain ok1 v1 where first: "file_read little_linux ?p truncated_memory scenario_file
      0 0 thread_start = Some (Returned (ok1, v1, thread_start))" by blast
  have "file_read little_linux ?p truncated_memory scenario_file 0 0 thread_start
      = Some (Returned (False, 0, thread_start))"
    by (rule file_read_fault [OF bounds thread_start_idle truncated_load scenario_in_mapping_0
          installed_action])
  with first have ok1: "ok1 = False" and v1: "v1 = 0" by simp_all
  from recovery_flag_false_around_guarded_read
    [of little_linux ?p truncated_memory scenario_file 0 0 thread_start ok1 v1 thread_start]
    first bounds load
  have "file_read little_linux ?p scenario_memory scenario_file 0 v1 thread_start
      = Some (Returned (True, 42, thread_start))" by blast
  with first ok1 v1 thread_start_idle inst inside bounds load show ?thesis by simp
qed

text \<open>
  C3. If the load of the guarded read faults because a byte it touches has lost its
  backing, the read returns \<^verbatim>\<open>false\<close> as an ordinary result (with \<^verbatim>\<open>*result\<close> untouched
  and the thread as before), the process is not terminated, and the loop of \<^verbatim>\<open>main\<close>
  prints the failure and goes on with its next iteration. The offset lies inside the file
  as it was when it was mapped, \<open>offset + 8 \<le> size\<close>, so that the byte is one of the
  mapping; the process is the one \<^verbatim>\<open>main\<close> runs in, after \<^verbatim>\<open>install_signal_handlers\<close>.
\<close>

theorem fault_is_reported_and_loop_continues:
  assumes inside: "unat offset + 8 \<le> unat (size_f f)"
    and idle: "\<not> sigbus_jmp_set t"
    and fault: "i < 8 \<and> m (data f + offset + of_nat i) = Unbacked"
  shows "file_read pf (install_signal_handlers p) m f offset r t = Some (Returned (False, r, t)) \<and>
         main_loop pf (install_signal_handlers p) f ((m, offset) # rest) junk t =
           (Failed_to_read # fst (main_loop pf (install_signal_handlers p) f rest junk t),
            snd (main_loop pf (install_signal_handlers p) f rest junk t))"
proof -
  from fault have none: "load_int64 pf m (data f + offset) = None"
    using load_int64_unbacked [of i m "data f + offset" pf] by simp
  have rd: "\<And>r. file_read pf (install_signal_handlers p) m f offset r t
      = Some (Returned (False, r, t))"
    by (rule file_read_fault [OF bounds_word [OF inside] idle none
          fault_in_mapping [OF inside none] installed_action])
  show ?thesis by (simp add: rd split_beta)
qed

theorem fault_is_reported_and_loop_continues_witness:
  "unat (0 :: size_t) + 8 \<le> unat (size_f scenario_file) \<and>
   \<not> sigbus_jmp_set thread_start \<and>
   (0 :: nat) < 8 \<and> truncated_memory (data scenario_file + 0 + of_nat 0) = Unbacked \<and>
   file_read little_linux (install_signal_handlers process_start) truncated_memory scenario_file
     0 0 thread_start = Some (Returned (False, 0, thread_start)) \<and>
   main_loop little_linux (install_signal_handlers process_start) scenario_file
     [(truncated_memory, 0), (scenario_memory, 0)] 0 thread_start =
     ([Failed_to_read, Printed_value 42], Running thread_start)"
proof -
  let ?p = "install_signal_handlers process_start"
  have inside: "unat (0 :: size_t) + 8 \<le> unat (size_f scenario_file)"
    by (simp add: scenario_file_def)
  have bounds: "(0 :: size_t) \<le> size_f scenario_file - 8" by (simp add: scenario_file_def)
  have fault: "(0 :: nat) < 8 \<and> truncated_memory (data scenario_file + 0 + of_nat 0) = Unbacked"
    by (simp add: truncated_memory_def)
  have load: "load_int64 little_linux scenario_memory (data scenario_file + 0) = Some 42"
    by (simp add: scenario_file_def scenario_load_0)
  have second: "main_loop little_linux ?p scenario_file [(scenario_memory, 0)] 0 thread_start
      = ([Printed_value 42], Running thread_start)"
    by (simp add: file_read_loaded [OF bounds thread_start_idle load])
  from fault_is_reported_and_loop_continues
    [where offset = 0 and f = scenario_file and t = thread_start and i = 0
       and m = truncated_memory and pf = little_linux and p = process_start and r = 0
       and rest = "[(scenario_memory, 0)]" and junk = 0] inside thread_start_idle fault
  have both: "file_read little_linux ?p truncated_memory scenario_file 0 0 thread_start
        = Some (Returned (False, 0, thread_start)) \<and>
      main_loop little_linux ?p scenario_file [(truncated_memory, 0), (scenario_memory, 0)] 0
        thread_start =
        (Failed_to_read # fst (main_loop little_linux ?p scenario_file [(scenario_memory, 0)] 0
           thread_start),
         snd (main_loop little_linux ?p scenario_file [(scenario_memory, 0)] 0 thread_start))"
    by blast
  from both have rd: "file_read little_linux ?p truncated_memory scenario_file 0 0 thread_start
        = Some (Returned (False, 0, thread_start))" by (rule conjunct1)
  from both have "main_loop little_linux ?p scenario_file
        [(truncated_memory, 0), (scenario_memory, 0)] 0 thread_start =
        (Failed_to_read # fst ([Printed_value 42], Running thread_start),
         snd ([Printed_value 42], Running thread_start))"
    unfolding second by (rule conjunct2)
  then have lp: "main_loop little_linux ?p scenario_file
        [(truncated_memory, 0), (scenario_memory, 0)] 0 thread_start =
        ([Failed_to_read, Printed_value 42], Running thread_start)"
    by (simp only: fst_conv snd_conv)
  from fault have f1: "(0 :: nat) < 8"
    and f2: "truncated_memory (data scenario_file + 0 + of_nat 0) = Unbacked" by blast+
  from inside thread_start_idle f1 f2 rd lp show ?thesis by blast
qed

text \<open>Outside the mapping the read is not recovered. On the 4-byte file the assertion lets
  the offset \<open>2 ^ 64 - 4\<close> through; the load starts 4 bytes below the mapping, where nothing
  is mapped, and the process is terminated by \<^verbatim>\<open>SIGSEGV\<close>, handler or not.\<close>

lemma short_file_read_below_mapping:
  "file_read little_linux (install_signal_handlers process_start) short_memory short_file
     (- 4) 0 thread_start = Some (Died (Signal_kill 11))"
proof -
  have b: "(- 4 :: size_t) \<le> size_f short_file - 8" by (simp add: short_file_def)
  have l: "load_int64 little_linux short_memory (data short_file + (- 4)) = None"
    by (simp add: load_int64_def short_memory_def short_file_def fetch_numeral)
  have a: "fault_address short_memory (data short_file + (- 4)) 8 = 4092"
    by (simp add: short_memory_def short_file_def fault_address_numeral)
  have o: "\<not> in_mapping little_linux short_file
      (fault_address short_memory (data short_file + (- 4)) 8)"
    unfolding a by (simp add: in_mapping_def mapped_length_def little_linux_def short_file_def)
  from file_read_fault_outside [OF b thread_start_idle l o]
  show ?thesis by (simp add: little_linux_def)
qed

text \<open>
  C6. A guarded read invoked while a recovery point is already active on the thread fails
  fast: the assertion at the head of \<^verbatim>\<open>safe_mmap_try\<close> aborts the process, whatever
  closure is passed, and so does \<^verbatim>\<open>file::read\<close>; the call never returns a result, so no
  \<^verbatim>\<open>false\<close> is reported.
\<close>

theorem nested_guarded_read_aborts:
  assumes "sigbus_jmp_set t"
  shows "safe_mmap_try fn s t = Some (Died Assert_fail) \<and>
         file_read pf p m f offset r t = Some (Died Assert_fail)"
  using assms by (simp add: file_read_def safe_mmap_try_def)

text \<open>A guarded call whose closure performs a guarded read: the inner read finds the flag
  set by the outer call and aborts the process.\<close>

theorem nested_guarded_read_aborts_witness:
  "sigbus_jmp_set (thread_start\<lparr>sigbus_jmp_set := True\<rparr>) \<and>
   file_read little_linux (install_signal_handlers process_start) scenario_memory scenario_file
     0 0 (thread_start\<lparr>sigbus_jmp_set := True\<rparr>) = Some (Died Assert_fail) \<and>
   safe_mmap_try
     (nested_closure little_linux (install_signal_handlers process_start) scenario_memory
        scenario_file 0) 0 thread_start = Some (Died Assert_fail)"
proof -
  let ?p = "install_signal_handlers process_start"
  let ?t = "thread_start\<lparr>sigbus_jmp_set := True\<rparr>"
  have armed: "sigbus_jmp_set ?t" by simp
  have inner: "file_read little_linux ?p scenario_memory scenario_file 0 0 ?t
      = Some (Died Assert_fail)"
    by (rule nested_guarded_read_aborts [OF armed, THEN conjunct2])
  then have "nested_closure little_linux ?p scenario_memory scenario_file 0 0 ?t
      = Some (Fatal Assert_fail)" by (simp add: nested_closure_def)
  then have "safe_mmap_try (nested_closure little_linux ?p scenario_memory scenario_file 0)
      0 thread_start = Some (Died Assert_fail)"
    by (simp add: safe_mmap_try_def thread_start_def)
  with armed inner show ?thesis by simp
qed

text \<open>
  C7. On every execution in which no fault occurs (each of the 8 bytes the load touches is
  backed), the guarded read ends as the naive, straight-line read of the same file at the
  same offset does: both return the same 64-bit value, or both fail the bounds assertion.
  The two programs run in processes of their own (\<open>p\<close> and \<open>q\<close>).
\<close>

theorem guarded_read_agrees_with_naive_read:
  assumes nofault: "\<forall>i<8. m (data f + offset + of_nat i) \<noteq> Unbacked"
    and idle: "\<not> sigbus_jmp_set t"
  shows "(\<exists>v. naive_read pf q m f offset t = Some (Normal (v, t)) \<and>
              file_read pf p m f offset r t = Some (Returned (True, v, t))) \<or>
         (naive_read pf q m f offset t = Some (Fatal Assert_fail) \<and>
          file_read pf p m f offset r t = Some (Died Assert_fail))"
proof (cases "offset \<le> size_f f - 8")
  case True
  from load_int64_backed [OF nofault]
  obtain v where v: "load_int64 pf m (data f + offset) = Some v" by blast
  have "naive_read pf q m f offset t = Some (Normal (v, t))"
    using True v by (simp add: naive_read_def)
  with file_read_loaded [OF True idle v] show ?thesis by blast
next
  case False
  then have "naive_read pf q m f offset t = Some (Fatal Assert_fail)"
    by (simp add: naive_read_def)
  with file_read_out_of_bounds [OF False] show ?thesis by blast
qed

theorem guarded_read_agrees_with_naive_read_witness:
  "\<not> sigbus_jmp_set thread_start \<and>
   naive_read little_linux process_start scenario_memory scenario_file 0 thread_start
     = Some (Normal (42, thread_start)) \<and>
   file_read little_linux (install_signal_handlers process_start) scenario_memory scenario_file
     0 0 thread_start = Some (Returned (True, 42, thread_start))"
proof -
  let ?p = "install_signal_handlers process_start"
  have nofault: "\<forall>i<8. scenario_memory (data scenario_file + 0 + of_nat i) \<noteq> Unbacked"
  proof (intro allI impI)
    fix i :: nat assume "i < 8"
    then have "(of_nat i :: 64 word) < 16"
      by (simp add: word_less_nat_alt unat_of_nat)
    then show "scenario_memory (data scenario_file + 0 + of_nat i) \<noteq> Unbacked"
      by (simp add: scenario_memory_def scenario_file_def)
  qed
  have naive: "naive_read little_linux process_start scenario_memory scenario_file 0 thread_start
      = Some (Normal (42, thread_start))"
    by (simp add: naive_read_def scenario_file_def scenario_load_0)
  from guarded_read_agrees_with_naive_read [OF nofault thread_start_idle,
      of little_linux process_start ?p 0] naive
  have "file_read little_linux ?p scenario_memory scenario_file 0 0 thread_start
      = Some (Returned (True, 42, thread_start))" by auto
  with naive thread_start_idle show ?thesis by blast
qed

text \<open>
  C4. Every offset that violates \<open>offset + 8 \<le> size\<close> is to fail the bounds assertion
  before any load and before the recovery mechanism is touched. For a file of at least 8
  bytes the assertion of \<^verbatim>\<open>file::read\<close> does this (\<open>file_read_rejects_in_long_file\<close>
  below). For a shorter file \<^verbatim>\<open>size - sizeof(int64_t)\<close> wraps around, and the assertion lets
  the read through: on the 4-byte file, whose page the kernel has filled up with zeros, the
  offset 0 violates the bound, and yet the read enters the guarded call, loads 8 bytes of
  which 4 lie behind the end of the file, and returns success.
\<close>

theorem short_file_read_passes_bounds_assertion:
  "\<not> unat (0 :: size_t) + 8 \<le> unat (size_f short_file) \<and>
   (0 :: size_t) \<le> size_f short_file - 8 \<and>
   file_read little_linux (install_signal_handlers process_start) short_memory short_file
     0 0 thread_start = Some (Returned (True, 4294967295, thread_start))"
proof -
  have viol: "\<not> unat (0 :: size_t) + 8 \<le> unat (size_f short_file)"
    by (simp add: short_file_def)
  have pass: "(0 :: size_t) \<le> size_f short_file - 8" by simp
  have load: "load_int64 little_linux short_memory (data short_file + 0) = Some 4294967295"
    by (simp add: short_file_def short_load_0)
  from viol pass file_read_loaded [OF pass thread_start_idle load] show ?thesis by blast
qed

text \<open>The part of C4 that the code keeps: in a file of at least 8 bytes an offset that
  violates the bound aborts the process at the assertion, whatever the memory, the process
  and the thread are.\<close>

lemma file_read_rejects_in_long_file:
  assumes "8 \<le> size_f f" and "\<not> unat offset + 8 \<le> unat (size_f f)"
  shows "file_read pf p m f offset r t = Some (Died Assert_fail)"
  using assms bounds_word_conv [of "size_f f" offset] by (simp add: file_read_def)

lemma scenario_read_9:
  "file_read pf p m scenario_file 9 r t = Some (Died Assert_fail)"
  by (simp add: file_read_def scenario_file_def)

text \<open>
  C5. A fault on a thread that has no active recovery point is to meet the default
  behaviour, termination of the process. After \<^verbatim>\<open>install_signal_handlers\<close> it does not:
  \<^verbatim>\<open>handle_sigbus\<close> is the registered action, it is called, finds the flag false and
  returns; nothing restores \<^verbatim>\<open>SIG_DFL\<close>, so the process is not terminated, and the
  faulting load is executed again without end. Shown for the handler alone, for the kernel's
  loop, and for an unguarded load (the one of the naive reader) run in a process that has
  installed the handler.
\<close>

theorem unguarded_fault_is_not_terminated:
  "handle_sigbus (SIGBUS little_linux) thread_start = Normal thread_start \<and>
   raise_sigbus little_linux (install_signal_handlers process_start) (0 :: int64_t) thread_start
     = None \<and>
   naive_read little_linux (install_signal_handlers process_start) truncated_memory
     scenario_file 0 thread_start = None"
proof -
  let ?p = "install_signal_handlers process_start"
  have h: "handle_sigbus (SIGBUS little_linux) thread_start = Normal thread_start"
    by (simp add: handle_sigbus_def thread_start_def)
  have k: "raise_sigbus little_linux ?p (0 :: int64_t) thread_start = None"
    by (rule raise_sigbus_unarmed [OF installed_action thread_start_idle])
  have b: "(0 :: size_t) \<le> size_f scenario_file - 8" by (simp add: scenario_file_def)
  have "naive_read little_linux ?p truncated_memory scenario_file 0 thread_start
      = load_fault little_linux ?p truncated_memory scenario_file (data scenario_file + 0)
          (0 :: int64_t) thread_start"
    using b by (simp add: naive_read_def truncated_load)
  also have "\<dots> = raise_sigbus little_linux ?p (0 :: int64_t) thread_start"
    using scenario_in_mapping_0 by (simp only: load_fault_def if_True)
  finally have "naive_read little_linux ?p truncated_memory scenario_file 0 thread_start = None"
    by (simp only: k)
  with h k show ?thesis by blast
qed

text \<open>The same unguarded load in a process that never installed the handler: the default
  action applies and the process is terminated by \<^verbatim>\<open>SIGBUS\<close>.\<close>

lemma unguarded_fault_default_action:
  "naive_read little_linux process_start truncated_memory scenario_file 0 thread_start
     = Some (Fatal (Signal_kill 7))"
proof -
  have "sigbus_action process_start = None" by (simp add: process_start_def)
  from raise_sigbus_default [OF this, of little_linux "0 :: int64_t" thread_start]
  have k: "raise_sigbus little_linux process_start (0 :: int64_t) thread_start
      = Some (Fatal (Signal_kill 7))" by (simp add: little_linux_def)
  have b: "(0 :: size_t) \<le> size_f scenario_file - 8" by (simp add: scenario_file_def)
  have "naive_read little_linux process_start truncated_memory scenario_file 0 thread_start
      = load_fault little_linux process_start truncated_memory scenario_file
          (data scenario_file + 0) (0 :: int64_t) thread_start"
    using b by (simp add: naive_read_def truncated_load)
  also have "\<dots> = raise_sigbus little_linux process_start (0 :: int64_t) thread_start"
    using scenario_in_mapping_0 by (simp only: load_fault_def if_True)
  finally show ?thesis by (simp only: k)
qed

subsection \<open>Opening\<close>

lemma open_file_result:
  "fst (open_file k p) =
     (case stat64_ret k of
        None \<Rightarrow> None
      | Some n \<Rightarrow>
          if open_ret k < 0 then None
          else (case mmap_ret k of None \<Rightarrow> None | Some d \<Rightarrow> Some \<lparr>size_f = n, data = d\<rparr>))"
  by (simp add: open_file_def sys_stat64_def sys_open_def sys_mmap_def Let_def
      split: option.split)

text \<open>The system calls one call of \<^verbatim>\<open>open_file\<close> makes: each of \<^verbatim>\<open>stat64\<close>, \<^verbatim>\<open>open\<close>
  and \<^verbatim>\<open>mmap\<close> once, in this order, up to the first that fails.\<close>

lemma open_file_log:
  "syscall_log (snd (open_file k p)) =
     syscall_log p @
       (if stat64_ret k = None then [Sys_stat64]
        else if open_ret k < 0 then [Sys_stat64, Sys_open]
        else [Sys_stat64, Sys_open, Sys_mmap])"
  by (auto simp: open_file_def sys_stat64_def sys_open_def sys_mmap_def logged_def Let_def
      split: option.split)

lemma open_file_independent_of_process: "fst (open_file k p) = fst (open_file k q)"
  by (simp only: open_file_result)

text \<open>
  C8. Every failure of \<^verbatim>\<open>open_file\<close> (the path cannot be stat'd, cannot be opened, or
  \<^verbatim>\<open>mmap\<close> fails) is handed to the caller as the null pointer, with no mapping made and
  without a retry: the call makes each of its system calls once, up to the one that
  fails, and none after it, so that no system call enters the log of the process more than
  once. And the failure is fatal to the program: \<^verbatim>\<open>main\<close> uses the result unchecked, so
  that \<^verbatim>\<open>f->size\<close> dereferences the null pointer before the loop is entered; nothing is
  printed and no read is performed.
\<close>

theorem open_failure_is_fatal:
  assumes "stat64_ret k = None \<or> open_ret k < 0 \<or> mmap_ret k = None"
  shows "fst (open_file k p) = None \<and>
         mappings (snd (open_file k p)) = mappings p \<and>
         syscall_log (snd (open_file k p)) =
           syscall_log p @
             (if stat64_ret k = None then [Sys_stat64]
              else if open_ret k < 0 then [Sys_stat64, Sys_open]
              else [Sys_stat64, Sys_open, Sys_mmap]) \<and>
         (\<forall>c. count_list (syscall_log (snd (open_file k p))) c
                \<le> count_list (syscall_log p) c + 1) \<and>
         main pf 2 k inputs junk p t = ([], Dead Null_deref)"
proof -
  have res: "\<And>q. fst (open_file k q) = None"
    using assms by (auto simp: open_file_result split: option.split)
  have maps: "mappings (snd (open_file k p)) = mappings p"
    using assms
    by (auto simp: open_file_def sys_stat64_def sys_open_def sys_mmap_def logged_def Let_def
        split: option.split)
  note log = open_file_log [of k p]
  have once: "\<forall>c. count_list (syscall_log (snd (open_file k p))) c
      \<le> count_list (syscall_log p) c + 1"
    unfolding log by simp
  have "main pf 2 k inputs junk p t = ([], Dead Null_deref)"
    using res [of "install_signal_handlers p"]
    by (simp add: main_def Let_def split_beta)
  with res maps log once show ?thesis by blast
qed

theorem open_failure_is_fatal_witness:
  "(stat64_ret missing_path = None \<or> open_ret missing_path < 0 \<or> mmap_ret missing_path = None) \<and>
   (stat64_ret unreadable_path = None \<or> open_ret unreadable_path < 0
      \<or> mmap_ret unreadable_path = None) \<and>
   (stat64_ret unmappable_path = None \<or> open_ret unmappable_path < 0
      \<or> mmap_ret unmappable_path = None) \<and>
   syscall_log (snd (open_file missing_path process_start)) = [Sys_stat64] \<and>
   syscall_log (snd (open_file unreadable_path process_start)) = [Sys_stat64, Sys_open] \<and>
   syscall_log (snd (open_file unmappable_path process_start))
     = [Sys_stat64, Sys_open, Sys_mmap] \<and>
   main little_linux 2 missing_path [(scenario_memory, 0)] 0 process_start thread_start
     = ([], Dead Null_deref) \<and>
   main little_linux 2 unreadable_path [(scenario_memory, 0)] 0 process_start thread_start
     = ([], Dead Null_deref) \<and>
   main little_linux 2 unmappable_path [(scenario_memory, 0)] 0 process_start thread_start
     = ([], Dead Null_deref)"
proof -
  have a: "stat64_ret missing_path = None \<or> open_ret missing_path < 0
      \<or> mmap_ret missing_path = None" by (simp add: missing_path_def)
  have b: "stat64_ret unreadable_path = None \<or> open_ret unreadable_path < 0
      \<or> mmap_ret unreadable_path = None" by (simp add: unreadable_path_def)
  have c: "stat64_ret unmappable_path = None \<or> open_ret unmappable_path < 0
      \<or> mmap_ret unmappable_path = None" by (simp add: unmappable_path_def)
  note fa = open_failure_is_fatal [OF a, of process_start little_linux "[(scenario_memory, 0)]" 0
      thread_start]
  note fb = open_failure_is_fatal [OF b, of process_start little_linux "[(scenario_memory, 0)]" 0
      thread_start]
  note fc = open_failure_is_fatal [OF c, of process_start little_linux "[(scenario_memory, 0)]" 0
      thread_start]
  from fa have la: "syscall_log (snd (open_file missing_path process_start)) = [Sys_stat64]"
    by (simp add: missing_path_def process_start_def)
  from fb have lb: "syscall_log (snd (open_file unreadable_path process_start))
      = [Sys_stat64, Sys_open]"
    by (simp add: unreadable_path_def process_start_def)
  from fc have lc: "syscall_log (snd (open_file unmappable_path process_start))
      = [Sys_stat64, Sys_open, Sys_mmap]"
    by (simp add: unmappable_path_def process_start_def)
  from a b c la lb lc fa fb fc show ?thesis by blast
qed

text \<open>With a path that opens, the same \<^verbatim>\<open>main\<close> reaches its loop and reads.\<close>

lemma main_reads_after_open:
  "main little_linux 2 good_path [(scenario_memory, 0), (truncated_memory, 8)] 0
     process_start thread_start =
     ([Printed_value 42, Failed_to_read], Running thread_start)"
proof -
  let ?p = "install_signal_handlers process_start"
  let ?q = "snd (open_file good_path ?p)"
  have f: "fst (open_file good_path ?p) = Some scenario_file"
    by (simp add: open_file_result good_path_def scenario_file_def)
  have act: "sigbus_action ?q = Some \<lparr>sa_handler = Handle_sigbus, sa_flags = {SA_NODEFER},
      sa_mask = {}\<rparr>"
    by (simp add: open_file_def sys_stat64_def sys_open_def sys_mmap_def logged_def
        good_path_def install_signal_handlers_def)
  have b0: "(0 :: size_t) \<le> size_f scenario_file - 8" by (simp add: scenario_file_def)
  have b8: "(8 :: size_t) \<le> size_f scenario_file - 8" by (simp add: scenario_file_def)
  have l0: "load_int64 little_linux scenario_memory (data scenario_file + 0) = Some 42"
    by (simp add: scenario_file_def scenario_load_0)
  have r0: "\<And>r. file_read little_linux ?q scenario_memory scenario_file 0 r thread_start
      = Some (Returned (True, 42, thread_start))"
    by (rule file_read_loaded [OF b0 thread_start_idle l0])
  have r8: "\<And>r. file_read little_linux ?q truncated_memory scenario_file 8 r thread_start
      = Some (Returned (False, r, thread_start))"
    by (rule file_read_fault [OF b8 thread_start_idle truncated_load scenario_in_mapping_8 act])
  have "main_loop little_linux ?q scenario_file [(scenario_memory, 0), (truncated_memory, 8)] 0
      thread_start = ([Printed_value 42, Failed_to_read], Running thread_start)"
    by (simp add: r0 r8)
  with f show ?thesis by (simp add: main_def Let_def split_beta)
qed

text \<open>
  C10. Every successful \<^verbatim>\<open>open_file\<close> of the POSIX sources leaves the descriptor it got
  from \<^verbatim>\<open>open\<close> open: it is among the open descriptors when \<^verbatim>\<open>open_file\<close> returns, and
  still so after the region has been destroyed, when its mapping is gone.
\<close>

theorem open_file_leaks_descriptor:
  assumes "open_file k p = (Some f, p')"
  shows "0 \<le> open_ret k \<and>
         open_fds p' = insert (open_ret k) (open_fds p) \<and>
         (data f, size_f f) \<in> mappings p' \<and>
         open_fds (destroy_file f p') = insert (open_ret k) (open_fds p) \<and>
         (data f, size_f f) \<notin> mappings (destroy_file f p')"
  using assms
  by (auto simp: open_file_def sys_stat64_def sys_open_def sys_mmap_def destroy_file_def
      sys_munmap_def logged_def Let_def split: option.splits if_splits)

theorem open_file_leaks_descriptor_witness:
  "open_file good_path process_start =
     (Some scenario_file,
      \<lparr>sigbus_action = None, open_fds = {0, 1, 2, 3}, mappings = {(4096, 16)},
       syscall_log = [Sys_stat64, Sys_open, Sys_mmap]\<rparr>) \<and>
   open_fds (snd (open_file good_path process_start)) = {0, 1, 2, 3} \<and>
   open_fds (destroy_file scenario_file (snd (open_file good_path process_start)))
     = {0, 1, 2, 3} \<and>
   mappings (destroy_file scenario_file (snd (open_file good_path process_start))) = {}"
proof -
  let ?q = "\<lparr>sigbus_action = None, open_fds = {0, 1, 2, 3 :: int},
      mappings = {(4096 :: addr, 16 :: size_t)},
      syscall_log = [Sys_stat64, Sys_open, Sys_mmap]\<rparr>"
  have o: "open_file good_path process_start = (Some scenario_file, ?q)"
    by (auto simp: open_file_def sys_stat64_def sys_open_def sys_mmap_def logged_def
        good_path_def process_start_def scenario_file_def)
  from open_file_leaks_descriptor [OF o]
  have "open_fds ?q = insert (open_ret good_path) (open_fds process_start)"
    and "open_fds (destroy_file scenario_file ?q)
      = insert (open_ret good_path) (open_fds process_start)" by blast+
  then have "open_fds ?q = {0, 1, 2, 3}" and "open_fds (destroy_file scenario_file ?q) = {0, 1, 2, 3}"
    by (auto simp: good_path_def process_start_def)
  moreover have "mappings (destroy_file scenario_file ?q) = {}"
    by (simp add: destroy_file_def sys_munmap_def logged_def scenario_file_def)
  ultimately show ?thesis using o by simp
qed


end
